theory Spec2Isabelle
  imports Main
begin

section \<open>The CSS selector builder of 08-objects-tasks.js\<close>

text \<open>
  The builder consists of the class \<open>Selector\<close> (a compound selector that is filled part
  by part), the class \<open>CombinedSelector\<close> (two selectors joined by a combinator) and the
  facade object \<open>cssSelectorBuilder\<close>.

  A \<open>Selector\<close> object is mutated in place by its methods, and a method may throw after
  it has run part of its body. A method is therefore a function from the state of
  \<open>this\<close> before the call to the completion of the call (\<open>Inl\<close> an error that was thrown,
  \<open>Inr\<close> a normal return) together with the state of \<open>this\<close> after the call.
\<close>

subsection \<open>Data\<close>

text \<open>
  The part kinds. The source tags them by the string literals \<open>'element'\<close>, \<open>'id'\<close>,
  \<open>'class'\<close>, \<open>'attr'\<close>, \<open>'pseudoClass'\<close> and \<open>'pseudoElement'\<close>; the part methods pass no
  other string to \<open>checkOrder\<close>.
\<close>

datatype part = K_element | K_id | K_class | K_attr | K_pseudoClass | K_pseudoElement

text \<open>
  The two \<open>throw new Error(...)\<close> of \<open>checkOrder\<close>, told apart by their message:
  \<open>OrderViolation\<close> is "Selector parts should be arranged in the following order: ...",
  \<open>DuplicatePartViolation\<close> is "Element, id and pseudo-element should not occur more then
  one time inside the selector".
\<close>

datatype error = OrderViolation | DuplicatePartViolation

text \<open>The object literal \<open>this.parts\<close>; the fields \<open>id\<close> and \<open>class\<close> carry a suffix.\<close>

record Parts =
  element :: string
  id_p :: string
  class_p :: "string list"
  attr :: "string list"
  pseudoClass :: "string list"
  pseudoElement :: string

record Selector =
  parts :: Parts
  order :: "part list"

type_synonym 'a completion = "(error + 'a) \<times> Selector"

subsection \<open>The class Selector\<close>

definition Selector_constructor :: Selector where
  "Selector_constructor =
     \<lparr> parts = \<lparr> element = '''', id_p = '''', class_p = [], attr = [],
                 pseudoClass = [], pseudoElement = '''' \<rparr>,
       order = [] \<rparr>"

text \<open>\<open>Array.prototype.indexOf\<close>: the first index of the element, \<open>-1\<close> when it is absent.\<close>

fun indexOf :: "'a list \<Rightarrow> 'a \<Rightarrow> int" where
  "indexOf [] x = - 1"
| "indexOf (y # ys) x =
     (if y = x then 0 else (let i = indexOf ys x in if i < 0 then - 1 else i + 1))"

text \<open>The local constant \<open>order\<close> of \<open>checkOrder\<close>.\<close>

definition canonical_order :: "part list" where
  "canonical_order = [K_element, K_id, K_class, K_attr, K_pseudoClass, K_pseudoElement]"

text \<open>
  \<open>checkOrder(part)\<close>: both \<open>throw\<close>s come before the only assignment, the \<open>push\<close> onto
  \<open>this.order\<close>. The last element of \<open>this.order\<close> is read only when the array is not
  empty.
\<close>

definition Selector_checkOrder :: "part \<Rightarrow> Selector \<Rightarrow> unit completion" where
  "Selector_checkOrder part this =
     (let partIndex = indexOf canonical_order part;
          lastIndex = (if length (order this) \<noteq> 0
                       then indexOf canonical_order (last (order this)) else - 1)
      in if partIndex < lastIndex then (Inl OrderViolation, this)
         else if part \<in> set [K_element, K_id, K_pseudoElement] \<and> part \<in> set (order this)
           then (Inl DuplicatePartViolation, this)
         else (Inr (), this\<lparr>order := order this @ [part]\<rparr>))"

text \<open>
  The six part methods: \<open>checkOrder\<close> first, whose exception leaves the method at once,
  then the assignment to the field of \<open>this.parts\<close>. They return \<open>this\<close>, which is the
  state component of the completion.
\<close>

definition Selector_element :: "string \<Rightarrow> Selector \<Rightarrow> unit completion" where
  "Selector_element val this =
     (case Selector_checkOrder K_element this of
        (Inl e, this') \<Rightarrow> (Inl e, this')
      | (Inr u, this') \<Rightarrow> (Inr (), this'\<lparr>parts := (parts this')\<lparr>element := val\<rparr>\<rparr>))"

definition Selector_id :: "string \<Rightarrow> Selector \<Rightarrow> unit completion" where
  "Selector_id val this =
     (case Selector_checkOrder K_id this of
        (Inl e, this') \<Rightarrow> (Inl e, this')
      | (Inr u, this') \<Rightarrow> (Inr (), this'\<lparr>parts := (parts this')\<lparr>id_p := ''#'' @ val\<rparr>\<rparr>))"

definition Selector_class :: "string \<Rightarrow> Selector \<Rightarrow> unit completion" where
  "Selector_class val this =
     (case Selector_checkOrder K_class this of
        (Inl e, this') \<Rightarrow> (Inl e, this')
      | (Inr u, this') \<Rightarrow>
          (Inr (), this'\<lparr>parts := (parts this')
                      \<lparr>class_p := class_p (parts this') @ [''.'' @ val]\<rparr>\<rparr>))"

definition Selector_attr :: "string \<Rightarrow> Selector \<Rightarrow> unit completion" where
  "Selector_attr val this =
     (case Selector_checkOrder K_attr this of
        (Inl e, this') \<Rightarrow> (Inl e, this')
      | (Inr u, this') \<Rightarrow>
          (Inr (), this'\<lparr>parts := (parts this')
                      \<lparr>attr := attr (parts this') @ [''['' @ val @ '']'']\<rparr>\<rparr>))"

definition Selector_pseudoClass :: "string \<Rightarrow> Selector \<Rightarrow> unit completion" where
  "Selector_pseudoClass val this =
     (case Selector_checkOrder K_pseudoClass this of
        (Inl e, this') \<Rightarrow> (Inl e, this')
      | (Inr u, this') \<Rightarrow>
          (Inr (), this'\<lparr>parts := (parts this')
                      \<lparr>pseudoClass := pseudoClass (parts this') @ ['':'' @ val]\<rparr>\<rparr>))"

definition Selector_pseudoElement :: "string \<Rightarrow> Selector \<Rightarrow> unit completion" where
  "Selector_pseudoElement val this =
     (case Selector_checkOrder K_pseudoElement this of
        (Inl e, this') \<Rightarrow> (Inl e, this')
      | (Inr u, this') \<Rightarrow>
          (Inr (), this'\<lparr>parts := (parts this')\<lparr>pseudoElement := ''::'' @ val\<rparr>\<rparr>))"

text \<open>\<open>stringify()\<close> reads the fields and assigns nothing; \<open>join('')\<close> is \<open>concat\<close>.\<close>

definition Selector_stringify :: "Selector \<Rightarrow> string" where
  "Selector_stringify this =
     element (parts this) @ id_p (parts this) @ concat (class_p (parts this)) @
     concat (attr (parts this)) @ concat (pseudoClass (parts this)) @
     pseudoElement (parts this)"

subsection \<open>Sequences of part-append calls\<close>

text \<open>The part method that belongs to a kind.\<close>

fun append_part :: "part \<Rightarrow> string \<Rightarrow> Selector \<Rightarrow> unit completion" where
  "append_part K_element val = Selector_element val"
| "append_part K_id val = Selector_id val"
| "append_part K_class val = Selector_class val"
| "append_part K_attr val = Selector_attr val"
| "append_part K_pseudoClass val = Selector_pseudoClass val"
| "append_part K_pseudoElement val = Selector_pseudoElement val"

text \<open>
  A chain \<open>s.m1(v1).m2(v2)...\<close>: the calls run from left to right and the first exception
  ends the chain.
\<close>

fun appends :: "(part \<times> string) list \<Rightarrow> Selector \<Rightarrow> unit completion" where
  "appends [] this = (Inr (), this)"
| "appends ((k, val) # ops) this =
     (case append_part k val this of
        (Inl e, this') \<Rightarrow> (Inl e, this')
      | (Inr u, this') \<Rightarrow> appends ops this')"

subsection \<open>The vocabulary of the specification\<close>

text \<open>
  The rank of a part kind is its position in
  \<open>[element, id, class, attribute, pseudoClass, pseudoElement]\<close>.
\<close>

fun rank :: "part \<Rightarrow> int" where
  "rank K_element = 0"
| "rank K_id = 1"
| "rank K_class = 2"
| "rank K_attr = 3"
| "rank K_pseudoClass = 4"
| "rank K_pseudoElement = 5"

text \<open>
  The rank of the most recently appended part kind; an empty history ranks before all
  ranks.
\<close>

definition lastRank :: "Selector \<Rightarrow> int" where
  "lastRank this = (if order this = [] then - 1 else rank (last (order this)))"

text \<open>The single-shot part kinds.\<close>

definition single_shot :: "part \<Rightarrow> bool" where
  "single_shot k = (k = K_element \<or> k = K_id \<or> k = K_pseudoElement)"


text \<open>The values appended for one kind, in append order.\<close>

definition vals :: "part \<Rightarrow> (part \<times> string) list \<Rightarrow> string list" where
  "vals k ops = map snd (filter (\<lambda>op. fst op = k) ops)"

text \<open>
  A sequence of part-append calls respects the canonical rank order and the single-shot
  limits: the ranks never decrease, and \<open>element\<close>, \<open>id\<close> and \<open>pseudoElement\<close> occur at
  most once each.
\<close>

definition valid_seq :: "(part \<times> string) list \<Rightarrow> bool" where
  "valid_seq ops =
     (sorted (map (\<lambda>op. rank (fst op)) ops) \<and>
      length (vals K_element ops) \<le> 1 \<and> length (vals K_id ops) \<le> 1 \<and>
      length (vals K_pseudoElement ops) \<le> 1)"

text \<open>
  The rendering the specification describes: the element value, \<open>#id\<close> if present, each
  class as \<open>.c\<close>, each attribute as \<open>[a]\<close>, each pseudo-class as \<open>:p\<close>, the last three
  groups in append order, and \<open>::pseudoElement\<close> if present, with no separators.
\<close>

definition render_spec :: "(part \<times> string) list \<Rightarrow> string" where
  "render_spec ops =
     (case vals K_element ops of [] \<Rightarrow> '''' | v # _ \<Rightarrow> v) @
     (case vals K_id ops of [] \<Rightarrow> '''' | v # _ \<Rightarrow> ''#'' @ v) @
     concat (map (\<lambda>v. ''.'' @ v) (vals K_class ops)) @
     concat (map (\<lambda>v. ''['' @ v @ '']'') (vals K_attr ops)) @
     concat (map (\<lambda>v. '':'' @ v) (vals K_pseudoClass ops)) @
     (case vals K_pseudoElement ops of [] \<Rightarrow> '''' | v # _ \<Rightarrow> ''::'' @ v)"

text \<open>
  The object state that the same description predicts after the calls \<open>ops\<close> on a new
  selector; it is compared with the state the methods produce.
\<close>

definition built :: "(part \<times> string) list \<Rightarrow> Selector" where
  "built ops =
     \<lparr> parts =
         \<lparr> element = (case vals K_element ops of [] \<Rightarrow> '''' | v # _ \<Rightarrow> v),
           id_p = (case vals K_id ops of [] \<Rightarrow> '''' | v # _ \<Rightarrow> ''#'' @ v),
           class_p = map (\<lambda>v. ''.'' @ v) (vals K_class ops),
           attr = map (\<lambda>v. ''['' @ v @ '']'') (vals K_attr ops),
           pseudoClass = map (\<lambda>v. '':'' @ v) (vals K_pseudoClass ops),
           pseudoElement =
             (case vals K_pseudoElement ops of [] \<Rightarrow> '''' | v # _ \<Rightarrow> ''::'' @ v) \<rparr>,
       order = map fst ops \<rparr>"

subsection \<open>Objects and references\<close>

text \<open>
  Selectors are objects: \<open>combine\<close> stores the two operands it is given, not copies of
  them, and a part method returns \<open>this\<close>. The store holds the \<open>Selector\<close> objects
  allocated so far; a reference is an index into it, and \<open>new Selector()\<close> is the only
  source of references, so that a reference in use is always below the length of the
  store.

  The three fields of a \<open>CombinedSelector\<close> are assigned in its constructor and nowhere
  else, and the class has no other method than \<open>stringify\<close>. Such an object is
  therefore a value: a tree whose leaves are references to \<open>Selector\<close> objects.
\<close>

type_synonym ref = nat

type_synonym store = "Selector list"

datatype selectable =
    SelectorRef ref
  | CombinedSelector (selector1: selectable) (combinator: string) (selector2: selectable)

text \<open>\<open>new Selector()\<close>: a new object, in the state the constructor leaves.\<close>

definition new_Selector :: "store \<Rightarrow> ref \<times> store" where
  "new_Selector st = (length st, st @ [Selector_constructor])"

text \<open>
  The method call \<open>r.m(...)\<close> on a reference: the method runs on the object, the object
  is left in the state the method left it in (also when it throws), and the value
  returned is \<open>this\<close>, the reference itself.
\<close>

definition call ::
  "(Selector \<Rightarrow> unit completion) \<Rightarrow> ref \<Rightarrow> store \<Rightarrow> (error + selectable) \<times> store" where
  "call m r st =
     (case m (st ! r) of
        (Inl e, this') \<Rightarrow> (Inl e, st[r := this'])
      | (Inr u, this') \<Rightarrow> (Inr (SelectorRef r), st[r := this']))"

text \<open>
  \<open>stringify()\<close> of either class: \<open>Selector.stringify\<close> on the object a reference points
  to, and the template literal of \<open>CombinedSelector.stringify\<close>, which renders the
  operands as they are at the time of the call.
\<close>

fun stringify :: "store \<Rightarrow> selectable \<Rightarrow> string" where
  "stringify st (SelectorRef r) = Selector_stringify (st ! r)"
| "stringify st (CombinedSelector sel1 comb sel2) =
     stringify st sel1 @ '' '' @ comb @ '' '' @ stringify st sel2"

text \<open>The \<open>Selector\<close> objects a selector refers to.\<close>

fun refs :: "selectable \<Rightarrow> ref set" where
  "refs (SelectorRef r) = {r}"
| "refs (CombinedSelector sel1 comb sel2) = refs sel1 \<union> refs sel2"

subsection \<open>The facade cssSelectorBuilder\<close>

definition cssSelectorBuilder_element ::
  "string \<Rightarrow> store \<Rightarrow> (error + selectable) \<times> store" where
  "cssSelectorBuilder_element val st =
     (case new_Selector st of (r, st') \<Rightarrow> call (Selector_element val) r st')"

definition cssSelectorBuilder_id ::
  "string \<Rightarrow> store \<Rightarrow> (error + selectable) \<times> store" where
  "cssSelectorBuilder_id val st =
     (case new_Selector st of (r, st') \<Rightarrow> call (Selector_id val) r st')"

definition cssSelectorBuilder_class ::
  "string \<Rightarrow> store \<Rightarrow> (error + selectable) \<times> store" where
  "cssSelectorBuilder_class val st =
     (case new_Selector st of (r, st') \<Rightarrow> call (Selector_class val) r st')"

definition cssSelectorBuilder_attr ::
  "string \<Rightarrow> store \<Rightarrow> (error + selectable) \<times> store" where
  "cssSelectorBuilder_attr val st =
     (case new_Selector st of (r, st') \<Rightarrow> call (Selector_attr val) r st')"

definition cssSelectorBuilder_pseudoClass ::
  "string \<Rightarrow> store \<Rightarrow> (error + selectable) \<times> store" where
  "cssSelectorBuilder_pseudoClass val st =
     (case new_Selector st of (r, st') \<Rightarrow> call (Selector_pseudoClass val) r st')"

definition cssSelectorBuilder_pseudoElement ::
  "string \<Rightarrow> store \<Rightarrow> (error + selectable) \<times> store" where
  "cssSelectorBuilder_pseudoElement val st =
     (case new_Selector st of (r, st') \<Rightarrow> call (Selector_pseudoElement val) r st')"

text \<open>
  \<open>combine\<close> has no \<open>throw\<close> and touches no \<open>Selector\<close> object: it returns the new
  \<open>CombinedSelector\<close> with the three arguments as its fields.
\<close>

definition cssSelectorBuilder_combine ::
  "selectable \<Rightarrow> string \<Rightarrow> selectable \<Rightarrow> store \<Rightarrow> (error + selectable) \<times> store" where
  "cssSelectorBuilder_combine sel1 comb sel2 st = (Inr (CombinedSelector sel1 comb sel2), st)"

text \<open>The factory entry point that belongs to a kind.\<close>

fun builder_start :: "part \<Rightarrow> string \<Rightarrow> store \<Rightarrow> (error + selectable) \<times> store" where
  "builder_start K_element val = cssSelectorBuilder_element val"
| "builder_start K_id val = cssSelectorBuilder_id val"
| "builder_start K_class val = cssSelectorBuilder_class val"
| "builder_start K_attr val = cssSelectorBuilder_attr val"
| "builder_start K_pseudoClass val = cssSelectorBuilder_pseudoClass val"
| "builder_start K_pseudoElement val = cssSelectorBuilder_pseudoElement val"

section \<open>Properties\<close>

subsection \<open>The checks of one part-append call\<close>

lemma indexOf_canonical_order: "indexOf canonical_order k = rank k"
  by (cases k) (simp_all add: canonical_order_def)

lemma rank_nonneg: "0 \<le> rank k"
  by (cases k) simp_all

lemma rank_inj: "rank k = rank k' \<Longrightarrow> k = k'"
  by (cases k; cases k') simp_all

lemma checkOrder_eq:
  "Selector_checkOrder k this =
     (if rank k < lastRank this then (Inl OrderViolation, this)
      else if single_shot k \<and> k \<in> set (order this) then (Inl DuplicatePartViolation, this)
      else (Inr (), this\<lparr>order := order this @ [k]\<rparr>))"
proof -
  have "indexOf canonical_order (last (order this)) = rank (last (order this))"
    by (rule indexOf_canonical_order)
  then show ?thesis
    unfolding Selector_checkOrder_def Let_def lastRank_def
    by (simp add: indexOf_canonical_order single_shot_def)
qed

lemmas part_method_defs =
  Selector_element_def Selector_id_def Selector_class_def Selector_attr_def
  Selector_pseudoClass_def Selector_pseudoElement_def

lemma append_part_fst:
  "fst (append_part k val this) =
     (if rank k < lastRank this then Inl OrderViolation
      else if single_shot k \<and> k \<in> set (order this) then Inl DuplicatePartViolation
      else Inr ())"
  by (cases k) (simp_all add: part_method_defs checkOrder_eq)

lemma append_part_failed_state:
  "fst (append_part k val this) = Inl e \<Longrightarrow> snd (append_part k val this) = this"
  by (cases k) (simp_all add: part_method_defs checkOrder_eq split: if_splits)

lemma append_part_order:
  "fst (append_part k val this) = Inr () \<Longrightarrow>
     order (snd (append_part k val this)) = order this @ [k]"
  by (cases k) (simp_all add: part_method_defs checkOrder_eq split: if_splits)



text \<open>
  C5. An error is raised inside the part-append call itself, and the failed call leaves
  the object as it was: neither the stored parts nor the append history change, and
  \<open>stringify()\<close>, which cannot fail, returns the same string as before the call.
\<close>

theorem failed_append_leaves_selector:
  "fst (append_part k val this) = Inl e \<Longrightarrow>
     snd (append_part k val this) = this \<and>
     Selector_stringify (snd (append_part k val this)) = Selector_stringify this"
  by (simp add: append_part_failed_state)

theorem failed_append_leaves_selector_witness:
  "fst (append_part K_pseudoElement ''after''
          (snd (Selector_pseudoElement ''before'' Selector_constructor)))
     = Inl DuplicatePartViolation \<and>
   snd (append_part K_pseudoElement ''after''
          (snd (Selector_pseudoElement ''before'' Selector_constructor)))
     = snd (Selector_pseudoElement ''before'' Selector_constructor) \<and>
   Selector_stringify
     (snd (append_part K_pseudoElement ''after''
             (snd (Selector_pseudoElement ''before'' Selector_constructor))))
     = ''::before''"
proof -
  have f: "fst (append_part K_pseudoElement ''after''
          (snd (Selector_pseudoElement ''before'' Selector_constructor)))
      = Inl DuplicatePartViolation"
    by (simp add: part_method_defs checkOrder_eq lastRank_def single_shot_def
        Selector_constructor_def)
  have s: "Selector_stringify (snd (Selector_pseudoElement ''before'' Selector_constructor))
      = ''::before''"
    by (simp add: part_method_defs checkOrder_eq lastRank_def single_shot_def
        Selector_constructor_def Selector_stringify_def)
  from failed_append_leaves_selector [OF f] f s show ?thesis
    by simp
qed

subsection \<open>Chains of part-append calls on a new selector\<close>

lemma appends_append:
  "appends (xs @ ys) this =
     (case appends xs this of
        (Inl e, this') \<Rightarrow> (Inl e, this')
      | (Inr u, this') \<Rightarrow> appends ys this')"
  by (induction xs arbitrary: this) (auto split: prod.splits sum.splits)

lemma appends_snoc:
  "appends (xs @ [(k, val)]) this =
     (case appends xs this of
        (Inl e, this') \<Rightarrow> (Inl e, this')
      | (Inr u, this') \<Rightarrow> append_part k val this')"
  by (simp add: appends_append split: prod.splits sum.splits)

lemma stringify_built: "Selector_stringify (built ops) = render_spec ops"
  by (simp add: Selector_stringify_def built_def render_spec_def)

lemma built_Nil: "built [] = Selector_constructor"
  by (simp add: built_def Selector_constructor_def vals_def)

lemma vals_snoc: "vals k (ops @ [(k', v)]) = (if k' = k then vals k ops @ [v] else vals k ops)"
  by (simp add: vals_def)

lemma vals_empty_iff: "vals k ops = [] \<longleftrightarrow> k \<notin> set (map fst ops)"
  by (induction ops) (auto simp: vals_def)

lemma lastRank_built:
  "lastRank (built ops) = (if ops = [] then - 1 else rank (fst (last ops)))"
  by (simp add: lastRank_def built_def last_map)

lemma sorted_le_last: "sorted xs \<Longrightarrow> x \<in> set xs \<Longrightarrow> x \<le> last (xs::int list)"
  by (induction xs) auto

lemma sorted_snoc_last:
  "sorted (xs @ [x::int]) \<longleftrightarrow> sorted xs \<and> (xs = [] \<or> last xs \<le> x)"
proof (cases "xs = []")
  case True
  then show ?thesis by simp
next
  case False
  then have "last xs \<in> set xs" by simp
  then show ?thesis
    using False by (auto simp: sorted_append dest: sorted_le_last)
qed

lemma length_vals_snoc:
  "length (vals k (ops @ [(k', v)])) \<le> 1 \<longleftrightarrow>
     length (vals k ops) \<le> 1 \<and> (k' = k \<longrightarrow> k \<notin> set (map fst ops))"
proof (cases "k' = k")
  case True
  have "length (vals k ops) = 0 \<longleftrightarrow> k \<notin> set (map fst ops)"
    using vals_empty_iff [of k ops] by simp
  with True show ?thesis by (auto simp: vals_snoc)
next
  case False
  then show ?thesis by (simp add: vals_snoc)
qed

text \<open>
  One more call keeps the sequence valid exactly when it passes both checks of
  \<open>checkOrder\<close> in the state the sequence has built.
\<close>

lemma valid_seq_snoc:
  "valid_seq (ops @ [(k, v)]) \<longleftrightarrow>
     valid_seq ops \<and> \<not> rank k < lastRank (built ops) \<and>
     \<not> (single_shot k \<and> k \<in> set (order (built ops)))"
proof -
  have s: "sorted (map (\<lambda>op. rank (fst op)) (ops @ [(k, v)])) \<longleftrightarrow>
        sorted (map (\<lambda>op. rank (fst op)) ops) \<and> \<not> rank k < lastRank (built ops)"
    using rank_nonneg [of k]
    by (cases "ops = []") (auto simp: sorted_snoc_last lastRank_built last_map)
  have o: "order (built ops) = map fst ops"
    by (simp add: built_def)
  show ?thesis
    unfolding valid_seq_def s length_vals_snoc o
    by (cases k) (auto simp: single_shot_def)
qed

lemma append_part_built:
  assumes ok: "fst (append_part k v (built ops)) = Inr ()"
  shows "snd (append_part k v (built ops)) = built (ops @ [(k, v)])"
proof -
  from ok have fresh: "single_shot k \<Longrightarrow> vals k ops = []"
    by (auto simp: append_part_fst vals_empty_iff built_def split: if_splits)
  from ok have c: "Selector_checkOrder k (built ops)
      = (Inr (), (built ops)\<lparr>order := order (built ops) @ [k]\<rparr>)"
    by (auto simp: append_part_fst checkOrder_eq split: if_splits)
  show ?thesis
    using fresh c
    by (cases k) (simp_all add: part_method_defs built_def vals_snoc single_shot_def)
qed

lemma appends_valid:
  "valid_seq ops \<Longrightarrow> appends ops Selector_constructor = (Inr (), built ops)"
proof (induction ops rule: rev_induct)
  case Nil
  show ?case by (simp add: built_Nil)
next
  case (snoc x ops)
  obtain k v where x: "x = (k, v)" by (cases x)
  from snoc.prems have valid: "valid_seq ops"
    and pass: "\<not> rank k < lastRank (built ops)"
      "\<not> (single_shot k \<and> k \<in> set (order (built ops)))"
    by (simp_all add: x valid_seq_snoc)
  from pass have ok: "fst (append_part k v (built ops)) = Inr ()"
    by (simp add: append_part_fst)
  have "appends (ops @ [x]) Selector_constructor = append_part k v (built ops)"
    by (simp add: x appends_snoc snoc.IH [OF valid])
  also have "\<dots> = (Inr (), built (ops @ [(k, v)]))"
    using ok append_part_built [OF ok] by (simp add: prod_eq_iff)
  finally show ?case by (simp add: x)
qed

lemma appends_succeeds_valid:
  "fst (appends ops Selector_constructor) = Inr () \<Longrightarrow> valid_seq ops"
proof (induction ops rule: rev_induct)
  case Nil
  show ?case by (simp add: valid_seq_def vals_def)
next
  case (snoc x ops)
  obtain k v where x: "x = (k, v)" by (cases x)
  from snoc.prems have pre: "fst (appends ops Selector_constructor) = Inr ()"
    by (auto simp: x appends_snoc split: prod.splits sum.splits)
  then have valid: "valid_seq ops" by (rule snoc.IH)
  then have st: "appends ops Selector_constructor = (Inr (), built ops)"
    by (rule appends_valid)
  from snoc.prems have "fst (append_part k v (built ops)) = Inr ()"
    by (simp add: x appends_snoc st)
  then show ?case
    using valid by (simp add: x valid_seq_snoc append_part_fst split: if_splits)
qed

text \<open>
  C1. For every sequence of part-append calls on a new selector that respects the
  canonical rank order and the single-shot limits, every call succeeds and
  \<open>stringify()\<close> returns the concatenation, with no separators, of the element value,
  \<open>'#' + id\<close> if present, each class as \<open>'.' + value\<close>, each attribute as
  \<open>'[' + value + ']'\<close>, each pseudo-class as \<open>':' + value\<close>, each group in append order,
  and \<open>'::' + pseudoElement\<close> if present.
\<close>

theorem stringify_valid_sequence:
  "valid_seq ops \<Longrightarrow>
     fst (appends ops Selector_constructor) = Inr () \<and>
     Selector_stringify (snd (appends ops Selector_constructor)) = render_spec ops"
  by (simp add: appends_valid stringify_built)

theorem stringify_valid_sequence_witness:
  "valid_seq [(K_element, ''div''), (K_id, ''main''), (K_class, ''container''),
       (K_class, ''draggable''), (K_attr, ''href''), (K_pseudoClass, ''focus''),
       (K_pseudoElement, ''after'')] \<and>
   Selector_stringify (snd (appends [(K_element, ''div''), (K_id, ''main''),
       (K_class, ''container''), (K_class, ''draggable''), (K_attr, ''href''),
       (K_pseudoClass, ''focus''), (K_pseudoElement, ''after'')] Selector_constructor))
     = ''div#main.container.draggable[href]:focus::after''"
proof -
  have v: "valid_seq [(K_element, ''div''), (K_id, ''main''), (K_class, ''container''),
       (K_class, ''draggable''), (K_attr, ''href''), (K_pseudoClass, ''focus''),
       (K_pseudoElement, ''after'')]"
    by (simp add: valid_seq_def vals_def)
  from stringify_valid_sequence [OF v] v show ?thesis
    by (simp add: render_spec_def vals_def)
qed

text \<open>
  C2. After any chain of successful part-append calls on a new selector, the next
  part-append call fails with \<open>OrderViolation\<close> exactly when the rank of the appended
  kind is strictly less than the rank of the kind appended by the last call of the
  chain, an empty chain ranking before all ranks; a kind of equal or higher rank
  passes the order check.
\<close>

theorem order_violation_iff:
  assumes "fst (appends ops Selector_constructor) = Inr ()"
  shows "(fst (append_part k val (snd (appends ops Selector_constructor)))
            = Inl OrderViolation)
       = (rank k < (if ops = [] then - 1 else rank (fst (last ops))))"
proof -
  from assms have "valid_seq ops"
    by (rule appends_succeeds_valid)
  then have "snd (appends ops Selector_constructor) = built ops"
    by (simp add: appends_valid)
  then show ?thesis
    by (simp add: append_part_fst lastRank_built)
qed

theorem order_violation_iff_witness:
  "fst (appends [(K_element, ''a''), (K_class, ''x'')] Selector_constructor) = Inr () \<and>
   rank K_id < rank (fst (last [(K_element, ''a''), (K_class, ''x'')])) \<and>
   fst (append_part K_id ''y''
          (snd (appends [(K_element, ''a''), (K_class, ''x'')] Selector_constructor)))
     = Inl OrderViolation \<and>
   \<not> rank K_class < rank (fst (last [(K_element, ''a''), (K_class, ''x'')])) \<and>
   fst (append_part K_class ''z''
          (snd (appends [(K_element, ''a''), (K_class, ''x'')] Selector_constructor)))
     \<noteq> Inl OrderViolation \<and>
   fst (appends [] Selector_constructor) = Inr () \<and>
   fst (append_part K_element ''b'' (snd (appends [] Selector_constructor)))
     \<noteq> Inl OrderViolation"
proof -
  have a: "fst (appends [(K_element, ''a''), (K_class, ''x'')] Selector_constructor) = Inr ()"
    by (simp add: part_method_defs checkOrder_eq lastRank_def single_shot_def
        Selector_constructor_def)
  have e: "fst (appends [] Selector_constructor) = Inr ()"
    by simp
  from order_violation_iff [OF a, of K_id "''y''"]
  have r1: "fst (append_part K_id ''y''
          (snd (appends [(K_element, ''a''), (K_class, ''x'')] Selector_constructor)))
     = Inl OrderViolation"
    by simp
  from order_violation_iff [OF a, of K_class "''z''"]
  have r2: "fst (append_part K_class ''z''
          (snd (appends [(K_element, ''a''), (K_class, ''x'')] Selector_constructor)))
     \<noteq> Inl OrderViolation"
    by simp
  from order_violation_iff [OF e, of K_element "''b''"]
  have r3: "fst (append_part K_element ''b'' (snd (appends [] Selector_constructor)))
     \<noteq> Inl OrderViolation"
    by simp
  from a e r1 r2 r3 show ?thesis
    by simp
qed

text \<open>
  C3, as the specification states it, fails: after \<open>element('div').id('main').class('x')\<close>
  a second \<open>element\<close> call throws the order error, not the duplicate error, because its
  rank is below the rank of \<open>class\<close> and the rank comparison comes first.
\<close>

theorem second_element_after_class_counterexample:
  "fst (appends [(K_element, ''div''), (K_id, ''main''), (K_class, ''x'')]
          Selector_constructor) = Inr () \<and>
   fst (Selector_element ''span''
          (snd (appends [(K_element, ''div''), (K_id, ''main''), (K_class, ''x'')]
                  Selector_constructor))) = Inl OrderViolation \<and>
   fst (Selector_element ''span''
          (snd (appends [(K_element, ''div''), (K_id, ''main''), (K_class, ''x'')]
                  Selector_constructor))) \<noteq> Inl DuplicatePartViolation"
  by (simp add: part_method_defs checkOrder_eq lastRank_def single_shot_def
      Selector_constructor_def)

text \<open>
  C3, amended. On a selector built by successful part-append calls on which \<open>element\<close>,
  \<open>id\<close> or \<open>pseudoElement\<close> has already been appended, every second append of that kind
  fails: with \<open>DuplicatePartViolation\<close> when that kind is the most recently appended
  one, and with \<open>OrderViolation\<close> when another part has been appended since.
\<close>

theorem second_single_shot_append:
  assumes "fst (appends ops Selector_constructor) = Inr ()"
    and "single_shot k"
    and "k \<in> set (map fst ops)"
  shows "fst (append_part k val (snd (appends ops Selector_constructor))) =
     Inl (if fst (last ops) = k then DuplicatePartViolation else OrderViolation)"
proof -
  from assms(1) have valid: "valid_seq ops"
    by (rule appends_succeeds_valid)
  then have st: "snd (appends ops Selector_constructor) = built ops"
    by (simp add: appends_valid)
  from assms(3) have ne: "ops \<noteq> []" by auto
  from valid have "sorted (map (\<lambda>op. rank (fst op)) ops)"
    by (simp add: valid_seq_def)
  moreover from assms(3) have "rank k \<in> set (map (\<lambda>op. rank (fst op)) ops)"
    by auto
  ultimately have "rank k \<le> last (map (\<lambda>op. rank (fst op)) ops)"
    by (rule sorted_le_last)
  then have le: "rank k \<le> rank (fst (last ops))"
    using ne by (simp add: last_map)
  have o: "k \<in> set (order (built ops))"
    using assms(3) by (simp add: built_def)
  show ?thesis
  proof (cases "fst (last ops) = k")
    case True
    then show ?thesis
      using ne o assms(2) by (simp add: st append_part_fst lastRank_built)
  next
    case False
    then have "rank k \<noteq> rank (fst (last ops))"
      by (auto dest: rank_inj)
    with le have "rank k < rank (fst (last ops))" by simp
    then show ?thesis
      using ne False by (simp add: st append_part_fst lastRank_built)
  qed
qed

theorem second_single_shot_append_witness:
  "fst (appends [(K_element, ''div''), (K_pseudoElement, ''before'')]
          Selector_constructor) = Inr () \<and>
   single_shot K_pseudoElement \<and> single_shot K_element \<and>
   K_pseudoElement \<in> set (map fst [(K_element, ''div''), (K_pseudoElement, ''before'')]) \<and>
   K_element \<in> set (map fst [(K_element, ''div''), (K_pseudoElement, ''before'')]) \<and>
   fst (append_part K_pseudoElement ''after''
          (snd (appends [(K_element, ''div''), (K_pseudoElement, ''before'')]
                  Selector_constructor))) = Inl DuplicatePartViolation \<and>
   fst (append_part K_element ''span''
          (snd (appends [(K_element, ''div''), (K_pseudoElement, ''before'')]
                  Selector_constructor))) = Inl OrderViolation"
proof -
  have a: "fst (appends [(K_element, ''div''), (K_pseudoElement, ''before'')]
          Selector_constructor) = Inr ()"
    by (simp add: part_method_defs checkOrder_eq lastRank_def single_shot_def
        Selector_constructor_def)
  have b: "single_shot K_pseudoElement" "single_shot K_element"
    by (simp_all add: single_shot_def)
  have c: "K_pseudoElement \<in> set (map fst [(K_element, ''div''), (K_pseudoElement, ''before'')])"
    "K_element \<in> set (map fst [(K_element, ''div''), (K_pseudoElement, ''before'')])"
    by simp_all
  from second_single_shot_append [OF a b(1) c(1), of "''after''"]
    second_single_shot_append [OF a b(2) c(2), of "''span''"] a b c
  show ?thesis
    by simp
qed

text \<open>
  C10. A failed part-append call does not poison the selector: every chain of further
  calls completes exactly as it would have without the failed call, with the same
  result and the same object state, so that \<open>stringify()\<close> shows the successful appends
  only.
\<close>

theorem failed_append_does_not_poison:
  "fst (append_part k val this) = Inl e \<Longrightarrow>
     appends ops (snd (append_part k val this)) = appends ops this \<and>
     Selector_stringify (snd (appends ops (snd (append_part k val this)))) =
       Selector_stringify (snd (appends ops this))"
  by (simp add: append_part_failed_state)

theorem failed_append_does_not_poison_witness:
  "fst (append_part K_id ''y'' (snd (Selector_class ''x'' Selector_constructor)))
     = Inl OrderViolation \<and>
   fst (appends [(K_class, ''z''), (K_attr, ''a'')]
          (snd (append_part K_id ''y'' (snd (Selector_class ''x'' Selector_constructor)))))
     = Inr () \<and>
   Selector_stringify (snd (appends [(K_class, ''z''), (K_attr, ''a'')]
          (snd (append_part K_id ''y'' (snd (Selector_class ''x'' Selector_constructor))))))
     = ''.x.z[a]''"
proof -
  have f: "fst (append_part K_id ''y'' (snd (Selector_class ''x'' Selector_constructor)))
      = Inl OrderViolation"
    by (simp add: part_method_defs checkOrder_eq lastRank_def single_shot_def
        Selector_constructor_def)
  have r: "fst (appends [(K_class, ''z''), (K_attr, ''a'')]
          (snd (Selector_class ''x'' Selector_constructor))) = Inr ()"
    by (simp add: part_method_defs checkOrder_eq lastRank_def single_shot_def
        Selector_constructor_def)
  have s: "Selector_stringify (snd (appends [(K_class, ''z''), (K_attr, ''a'')]
          (snd (Selector_class ''x'' Selector_constructor)))) = ''.x.z[a]''"
    by (simp add: part_method_defs checkOrder_eq lastRank_def single_shot_def
        Selector_constructor_def Selector_stringify_def)
  from failed_append_does_not_poison [OF f, of "[(K_class, ''z''), (K_attr, ''a'')]"] f r s
  show ?thesis
    by simp
qed

subsection \<open>The factory and combined selectors\<close>

lemmas builder_defs =
  cssSelectorBuilder_element_def cssSelectorBuilder_id_def cssSelectorBuilder_class_def
  cssSelectorBuilder_attr_def cssSelectorBuilder_pseudoClass_def
  cssSelectorBuilder_pseudoElement_def

lemma call_eq:
  "call m r st =
     (case fst (m (st ! r)) of Inl e \<Rightarrow> Inl e | Inr u \<Rightarrow> Inr (SelectorRef r),
      st[r := snd (m (st ! r))])"
  by (simp add: call_def split: prod.splits sum.splits)

lemma builder_start_eq:
  "builder_start k val st =
     call (append_part k val) (length st) (st @ [Selector_constructor])"
  by (cases k) (simp_all add: builder_defs new_Selector_def)

lemma first_append_succeeds: "fst (append_part k val Selector_constructor) = Inr ()"
  using rank_nonneg [of k]
  by (simp add: append_part_fst lastRank_def Selector_constructor_def)

lemma builder_start_result:
  "builder_start k val st =
     (Inr (SelectorRef (length st)), st @ [snd (append_part k val Selector_constructor)])"
  by (simp add: builder_start_eq call_eq first_append_succeeds)

lemma stringify_cong:
  "(\<And>r. r \<in> refs c \<Longrightarrow> st' ! r = st ! r) \<Longrightarrow> stringify st' c = stringify st c"
  by (induction c) simp_all

text \<open>
  C8. A factory entry point is a new empty selector followed by the matching part
  method, whose checks pass on the empty history: the call returns a reference to a
  new object whose state depends on the kind and the value only. The factory has no
  state of its own, and a second factory call returns another new object and leaves
  the first one, like every older object, as it was.
\<close>

theorem factory_start:
  "builder_start k val st =
     (Inr (SelectorRef (length st)), st @ [snd (append_part k val Selector_constructor)]) \<and>
   fst (append_part k val Selector_constructor) = Inr () \<and>
   builder_start k' val' (snd (builder_start k val st)) =
     (Inr (SelectorRef (Suc (length st))),
      st @ [snd (append_part k val Selector_constructor),
            snd (append_part k' val' Selector_constructor)])"
  by (simp add: builder_start_result first_append_succeeds)

text \<open>
  C4. For all selectors \<open>a\<close> and \<open>b\<close>, compound or combined, and every combinator string
  \<open>op\<close>, \<open>combine(a, op, b).stringify()\<close> is
  \<open>a.stringify() + " " + op + " " + b.stringify()\<close>, and combined selectors nest:
  \<open>combine(combine(a, '+', b), '~', c).stringify()\<close> is
  \<open>a.stringify() + " + " + b.stringify() + " ~ " + c.stringify()\<close>.
\<close>

theorem combine_stringify:
  "(\<exists>ab. fst (cssSelectorBuilder_combine a op b st) = Inr ab \<and>
      stringify st ab = stringify st a @ '' '' @ op @ '' '' @ stringify st b) \<and>
   (\<exists>ab abc. fst (cssSelectorBuilder_combine a ''+'' b st) = Inr ab \<and>
      fst (cssSelectorBuilder_combine ab ''~'' c st) = Inr abc \<and>
      stringify st abc =
        stringify st a @ '' + '' @ stringify st b @ '' ~ '' @ stringify st c)"
  by (simp add: cssSelectorBuilder_combine_def)

text \<open>
  C6. \<open>combine\<close> does not validate the combinator: for every string \<open>op\<close>, also one that
  is none of \<open>' '\<close>, \<open>'+'\<close>, \<open>'~'\<close> and \<open>'>'\<close>, the call returns normally, touches no
  selector, stores \<open>op\<close> unchanged next to the two operands, and \<open>stringify()\<close> renders
  \<open>op\<close> verbatim between the rendered operands.
\<close>

theorem combine_any_combinator:
  "cssSelectorBuilder_combine a op b st = (Inr (CombinedSelector a op b), st) \<and>
   selector1 (CombinedSelector a op b) = a \<and>
   combinator (CombinedSelector a op b) = op \<and>
   selector2 (CombinedSelector a op b) = b \<and>
   stringify st' (CombinedSelector a op b) =
     stringify st' a @ '' '' @ op @ '' '' @ stringify st' b"
  by (simp add: cssSelectorBuilder_combine_def)

text \<open>
  C7, as the specification states it, fails. \<open>a = element('div')\<close> and \<open>b = element('p')\<close>
  are the objects 0 and 1; \<open>combine(a, '+', b)\<close> renders as \<open>div + p\<close>; then \<open>a.id('x')\<close>
  succeeds, although \<open>a\<close> has been handed to the combined selector and rendered, and
  the same combined selector renders as \<open>div#x + p\<close>.
\<close>

theorem append_after_combine_counterexample:
  "fst (cssSelectorBuilder_element ''div'' []) = Inr (SelectorRef 0) \<and>
   fst (cssSelectorBuilder_element ''p'' (snd (cssSelectorBuilder_element ''div'' [])))
     = Inr (SelectorRef 1) \<and>
   stringify (snd (cssSelectorBuilder_element ''p'' (snd (cssSelectorBuilder_element ''div'' []))))
     (CombinedSelector (SelectorRef 0) ''+'' (SelectorRef 1)) = ''div + p'' \<and>
   fst (call (Selector_id ''x'') 0
     (snd (cssSelectorBuilder_element ''p'' (snd (cssSelectorBuilder_element ''div'' [])))))
     = Inr (SelectorRef 0) \<and>
   stringify (snd (call (Selector_id ''x'') 0
       (snd (cssSelectorBuilder_element ''p'' (snd (cssSelectorBuilder_element ''div'' []))))))
     (CombinedSelector (SelectorRef 0) ''+'' (SelectorRef 1)) = ''div#x + p''"
  by (simp add: builder_defs new_Selector_def call_def part_method_defs checkOrder_eq
      lastRank_def single_shot_def Selector_constructor_def Selector_stringify_def)

text \<open>
  C7, amended. Neither rendering nor \<open>combine\<close> freezes a compound selector: a later
  part-append call on it runs as on any selector, and when it succeeds it changes the
  object (its history grows by the appended kind). From then on the object renders in
  its new state, and a \<open>CombinedSelector\<close> renders its two operands as they are after
  the call, so that a combined selector that holds the object shows the change. What
  is fixed: a failed append changes no object, an append changes no other object than
  its own, and the rendering of a selector that does not refer to the object is
  unchanged; the operands of a \<open>CombinedSelector\<close> are never replaced.
\<close>

theorem append_after_combine:
  assumes "r < length st"
  shows "snd (call (append_part k val) r st) = st[r := snd (append_part k val (st ! r))] \<and>
    fst (call (append_part k val) r st) =
      (case fst (append_part k val (st ! r)) of
         Inl e \<Rightarrow> Inl e | Inr u \<Rightarrow> Inr (SelectorRef r)) \<and>
    (fst (append_part k val (st ! r)) = Inr () \<longrightarrow>
       order (snd (call (append_part k val) r st) ! r) = order (st ! r) @ [k]) \<and>
    (\<forall>e. fst (append_part k val (st ! r)) = Inl e \<longrightarrow>
       snd (call (append_part k val) r st) = st) \<and>
    (r \<notin> refs c \<longrightarrow>
       stringify (snd (call (append_part k val) r st)) c = stringify st c) \<and>
    stringify (snd (call (append_part k val) r st)) (SelectorRef r) =
      Selector_stringify (snd (append_part k val (st ! r))) \<and>
    stringify (snd (call (append_part k val) r st)) (CombinedSelector a op b) =
      stringify (snd (call (append_part k val) r st)) a @ '' '' @ op @ '' '' @
      stringify (snd (call (append_part k val) r st)) b"
proof -
  have st': "snd (call (append_part k val) r st) = st[r := snd (append_part k val (st ! r))]"
    by (simp add: call_eq)
  have res: "fst (call (append_part k val) r st) =
      (case fst (append_part k val (st ! r)) of
         Inl e \<Rightarrow> Inl e | Inr u \<Rightarrow> Inr (SelectorRef r))"
    by (simp add: call_eq)
  have changed: "order (snd (call (append_part k val) r st) ! r) = order (st ! r) @ [k]"
    if "fst (append_part k val (st ! r)) = Inr ()"
    using that assms by (simp add: st' append_part_order)
  have failed: "snd (call (append_part k val) r st) = st"
    if "fst (append_part k val (st ! r)) = Inl e" for e
    using that by (simp add: st' append_part_failed_state)
  have other: "stringify (snd (call (append_part k val) r st)) c = stringify st c"
    if "r \<notin> refs c"
  proof (rule stringify_cong)
    fix r' assume "r' \<in> refs c"
    with that have "r \<noteq> r'" by auto
    then show "snd (call (append_part k val) r st) ! r' = st ! r'"
      by (simp add: st')
  qed
  have leaf: "stringify (snd (call (append_part k val) r st)) (SelectorRef r) =
      Selector_stringify (snd (append_part k val (st ! r)))"
    using assms by (simp add: st')
  have comb: "stringify (snd (call (append_part k val) r st)) (CombinedSelector a op b) =
      stringify (snd (call (append_part k val) r st)) a @ '' '' @ op @ '' '' @
      stringify (snd (call (append_part k val) r st)) b"
    by simp
  show ?thesis
    using st' res changed failed other leaf comb by blast
qed

theorem append_after_combine_witness:
  "(0::nat) < length (snd (cssSelectorBuilder_element ''p''
                            (snd (cssSelectorBuilder_element ''div'' [])))) \<and>
   0 \<in> refs (CombinedSelector (SelectorRef 0) ''+'' (SelectorRef 1)) \<and>
   stringify (snd (cssSelectorBuilder_element ''p'' (snd (cssSelectorBuilder_element ''div'' []))))
       (CombinedSelector (SelectorRef 0) ''+'' (SelectorRef 1))
     = ''div + p'' \<and>
   fst (call (append_part K_id ''x'') 0
          (snd (cssSelectorBuilder_element ''p'' (snd (cssSelectorBuilder_element ''div'' [])))))
     = Inr (SelectorRef 0) \<and>
   order (snd (call (append_part K_id ''x'') 0
          (snd (cssSelectorBuilder_element ''p'' (snd (cssSelectorBuilder_element ''div'' []))))) ! 0)
     = [K_element, K_id] \<and>
   stringify (snd (call (append_part K_id ''x'') 0
          (snd (cssSelectorBuilder_element ''p'' (snd (cssSelectorBuilder_element ''div'' []))))))
       (CombinedSelector (SelectorRef 0) ''+'' (SelectorRef 1))
     = ''div#x + p'' \<and>
   fst (call (append_part K_element ''span'') 0
          (snd (cssSelectorBuilder_element ''p'' (snd (cssSelectorBuilder_element ''div'' [])))))
     = Inl DuplicatePartViolation \<and>
   snd (call (append_part K_element ''span'') 0
          (snd (cssSelectorBuilder_element ''p'' (snd (cssSelectorBuilder_element ''div'' [])))))
     = snd (cssSelectorBuilder_element ''p'' (snd (cssSelectorBuilder_element ''div'' []))) \<and>
   0 \<notin> refs (SelectorRef 1) \<and>
   stringify (snd (call (append_part K_id ''x'') 0
          (snd (cssSelectorBuilder_element ''p'' (snd (cssSelectorBuilder_element ''div'' []))))))
       (SelectorRef 1)
     = ''p''"
proof -
  have st: "snd (cssSelectorBuilder_element ''p'' (snd (cssSelectorBuilder_element ''div'' [])))
      = [snd (Selector_element ''div'' Selector_constructor),
         snd (Selector_element ''p'' Selector_constructor)]"
    using builder_start_result [of K_element "''div''" "[]"]
      builder_start_result [of K_element "''p''" "snd (cssSelectorBuilder_element ''div'' [])"]
    by simp
  have len: "(0::nat) < length [snd (Selector_element ''div'' Selector_constructor),
         snd (Selector_element ''p'' Selector_constructor)]"
    by simp
  have ok: "fst (append_part K_id ''x''
      ([snd (Selector_element ''div'' Selector_constructor),
        snd (Selector_element ''p'' Selector_constructor)] ! 0)) = Inr ()"
    by (simp add: part_method_defs checkOrder_eq lastRank_def single_shot_def
        Selector_constructor_def)
  have dup: "fst (append_part K_element ''span''
      ([snd (Selector_element ''div'' Selector_constructor),
        snd (Selector_element ''p'' Selector_constructor)] ! 0)) = Inl DuplicatePartViolation"
    by (simp add: part_method_defs checkOrder_eq lastRank_def single_shot_def
        Selector_constructor_def)
  have o: "order ([snd (Selector_element ''div'' Selector_constructor),
        snd (Selector_element ''p'' Selector_constructor)] ! 0) = [K_element]"
    by (simp add: part_method_defs checkOrder_eq lastRank_def single_shot_def
        Selector_constructor_def)
  have s: "stringify [snd (Selector_element ''div'' Selector_constructor),
        snd (Selector_element ''p'' Selector_constructor)] (SelectorRef 1) = ''p''"
    by (simp add: part_method_defs checkOrder_eq lastRank_def single_shot_def
        Selector_constructor_def Selector_stringify_def)
  have before: "stringify [snd (Selector_element ''div'' Selector_constructor),
        snd (Selector_element ''p'' Selector_constructor)]
        (CombinedSelector (SelectorRef 0) ''+'' (SelectorRef 1)) = ''div + p''"
    by (simp add: part_method_defs checkOrder_eq lastRank_def single_shot_def
        Selector_constructor_def Selector_stringify_def)
  have new: "Selector_stringify (snd (append_part K_id ''x''
      ([snd (Selector_element ''div'' Selector_constructor),
        snd (Selector_element ''p'' Selector_constructor)] ! 0))) = ''div#x''"
    by (simp add: part_method_defs checkOrder_eq lastRank_def single_shot_def
        Selector_constructor_def Selector_stringify_def)
  have n: "0 \<notin> refs (SelectorRef 1)"
    by simp
  have m: "0 \<in> refs (CombinedSelector (SelectorRef 0) ''+'' (SelectorRef 1))"
    by simp
  note t1 = append_after_combine [OF len, where k = K_id and val = "''x''"
      and c = "SelectorRef 1" and a = "SelectorRef 0" and op = "''+''"
      and b = "SelectorRef 1"]
  note t2 = append_after_combine [OF len, where k = K_element and val = "''span''"]
  from t1 ok have a1: "fst (call (append_part K_id ''x'') 0
        [snd (Selector_element ''div'' Selector_constructor),
         snd (Selector_element ''p'' Selector_constructor)]) = Inr (SelectorRef 0)"
    by simp
  from t1 ok have "order (snd (call (append_part K_id ''x'') 0
        [snd (Selector_element ''div'' Selector_constructor),
         snd (Selector_element ''p'' Selector_constructor)]) ! 0)
      = order ([snd (Selector_element ''div'' Selector_constructor),
                snd (Selector_element ''p'' Selector_constructor)] ! 0) @ [K_id]"
    by blast
  then have a2: "order (snd (call (append_part K_id ''x'') 0
        [snd (Selector_element ''div'' Selector_constructor),
         snd (Selector_element ''p'' Selector_constructor)]) ! 0) = [K_element, K_id]"
    unfolding o by simp
  from t2 dup have a3: "fst (call (append_part K_element ''span'') 0
        [snd (Selector_element ''div'' Selector_constructor),
         snd (Selector_element ''p'' Selector_constructor)]) = Inl DuplicatePartViolation"
    by simp
  from t2 dup have a4: "snd (call (append_part K_element ''span'') 0
        [snd (Selector_element ''div'' Selector_constructor),
         snd (Selector_element ''p'' Selector_constructor)])
      = [snd (Selector_element ''div'' Selector_constructor),
         snd (Selector_element ''p'' Selector_constructor)]"
    by blast
  from t1 n s have a5: "stringify (snd (call (append_part K_id ''x'') 0
        [snd (Selector_element ''div'' Selector_constructor),
         snd (Selector_element ''p'' Selector_constructor)])) (SelectorRef 1) = ''p''"
    by metis
  from t1 new have a6: "stringify (snd (call (append_part K_id ''x'') 0
        [snd (Selector_element ''div'' Selector_constructor),
         snd (Selector_element ''p'' Selector_constructor)])) (SelectorRef 0) = ''div#x''"
    by metis
  from t1 have "stringify (snd (call (append_part K_id ''x'') 0
        [snd (Selector_element ''div'' Selector_constructor),
         snd (Selector_element ''p'' Selector_constructor)]))
        (CombinedSelector (SelectorRef 0) ''+'' (SelectorRef 1))
      = stringify (snd (call (append_part K_id ''x'') 0
        [snd (Selector_element ''div'' Selector_constructor),
         snd (Selector_element ''p'' Selector_constructor)])) (SelectorRef 0) @ '' '' @ ''+'' @
        '' '' @ stringify (snd (call (append_part K_id ''x'') 0
        [snd (Selector_element ''div'' Selector_constructor),
         snd (Selector_element ''p'' Selector_constructor)])) (SelectorRef 1)"
    by blast
  then have a7: "stringify (snd (call (append_part K_id ''x'') 0
        [snd (Selector_element ''div'' Selector_constructor),
         snd (Selector_element ''p'' Selector_constructor)]))
        (CombinedSelector (SelectorRef 0) ''+'' (SelectorRef 1)) = ''div#x + p''"
    unfolding a5 a6 by simp
  from len m before a1 a2 a7 a3 a4 n a5 show ?thesis
    unfolding st by blast
qed

end
